theory Spec2Isabelle
  imports Main
begin

section \<open>Cursor pagination of go-pixiv responses (pixiv/response.go)\<close>

text \<open>
  The file \<^verbatim>\<open>response.go\<close> declares the response structs of the client and, for four of
  them, a method that fetches the next page from the \<^verbatim>\<open>NextURL\<close> cursor:
  \<^verbatim>\<open>NextComments\<close>, \<^verbatim>\<open>NextNovels\<close>, \<^verbatim>\<open>NextIllusts\<close> and \<^verbatim>\<open>NextFollowing\<close>.
  Each method reads the receiver, allocates a new struct, and calls \<^verbatim>\<open>r.api.get\<close> on it.

  The embedding is a state-passing one over an explicit store: a response struct lives at
  an address of a heap, a pointer is an address or nil, and a method takes the store and
  returns the new one. A Go call either returns or panics; a method result is the
  pair \<^verbatim>\<open>(page, error)\<close> that Go returns, each component nil or not.
\<close>

subsection \<open>Errors\<close>

text \<open>
  \<^verbatim>\<open>ErrEmptyNextURL\<close> is the package variable made by \<^verbatim>\<open>errors.New\<close>. \<^verbatim>\<open>ErrAppAPI\<close> carries
  the three strings of its \<^verbatim>\<open>Errors\<close> field (user message, message, reason). The two other
  constructors stand for the errors of the standard library that a fetch can end in: a
  type mismatch found while decoding JSON, and any transport failure.
\<close>

datatype error =
    ErrEmptyNextURL
  | ErrAppAPI string string string
  | UnmarshalTypeError string
  | TransportError string

subsection \<open>JSON values and Go's rule for matching object keys to struct fields\<close>

datatype json =
    JNull
  | JBool bool
  | JNum int
  | JStr string
  | JArr "json list"
  | JObj "(string \<times> json) list"

text \<open>
  \<^verbatim>\<open>encoding/json\<close> matches an object key to a struct field by the field's key (its
  \<^verbatim>\<open>json:"..."\<close> tag, or the Go field name when there is no tag): an exact match is
  preferred, a match up to letter case is accepted. Unexported fields (\<^verbatim>\<open>api\<close>) have no key.
  \<open>foldName\<close> is the case folding on ASCII letters; bytes outside \<^verbatim>\<open>a..z\<close> are kept.
\<close>

definition foldChar :: "char \<Rightarrow> char" where
  "foldChar c =
     (case map_of (zip ''abcdefghijklmnopqrstuvwxyz'' ''ABCDEFGHIJKLMNOPQRSTUVWXYZ'') c of
        Some u \<Rightarrow> u
      | None \<Rightarrow> c)"

definition foldName :: "string \<Rightarrow> string" where
  "foldName s = map foldChar s"

type_synonym 'p field_decoder = "json \<Rightarrow> 'p \<Rightarrow> 'p \<times> error option"

definition find_field :: "(string \<times> 'p field_decoder) list \<Rightarrow> string \<Rightarrow> 'p field_decoder option" where
  "find_field fs k =
     (case map_of fs k of
        Some d \<Rightarrow> Some d
      | None \<Rightarrow> map_of (map (\<lambda>(n, d). (foldName n, d)) fs) (foldName k))"

text \<open>The decoder keeps the first type error and goes on with the remaining members.\<close>

definition first_error :: "error option \<Rightarrow> error option \<Rightarrow> error option" where
  "first_error e1 e2 = (case e1 of None \<Rightarrow> e2 | Some e \<Rightarrow> Some e)"

fun decode_members ::
  "(string \<times> 'p field_decoder) list \<Rightarrow> (string \<times> json) list \<Rightarrow> 'p \<Rightarrow> 'p \<times> error option" where
  "decode_members fs [] v = (v, None)"
| "decode_members fs ((k, j) # kvs) v =
     (case find_field fs k of
        None \<Rightarrow> decode_members fs kvs v
      | Some d \<Rightarrow>
          (case d j v of
             (v1, e1) \<Rightarrow>
               (case decode_members fs kvs v1 of
                  (v2, e2) \<Rightarrow> (v2, first_error e1 e2))))"

definition unmarshal_struct :: "(string \<times> 'p field_decoder) list \<Rightarrow> json \<Rightarrow> 'p \<Rightarrow> 'p \<times> error option" where
  "unmarshal_struct fs j v =
     (case j of
        JNull \<Rightarrow> (v, None)
      | JObj kvs \<Rightarrow> decode_members fs kvs v
      | _ \<Rightarrow> (v, Some (UnmarshalTypeError ''object'')))"

definition string_field :: "(string \<Rightarrow> 'p \<Rightarrow> 'p) \<Rightarrow> 'p field_decoder" where
  "string_field upd j v =
     (case j of
        JStr s \<Rightarrow> (upd s v, None)
      | JNull \<Rightarrow> (v, None)
      | _ \<Rightarrow> (v, Some (UnmarshalTypeError ''string'')))"

text \<open>A Go \<^verbatim>\<open>int\<close> is 64 bits wide; a number outside its range is a type error.\<close>

definition int_field :: "(int \<Rightarrow> 'p \<Rightarrow> 'p) \<Rightarrow> 'p field_decoder" where
  "int_field upd j v =
     (case j of
        JNum n \<Rightarrow>
          (if - (2 ^ 63) \<le> n \<and> n < 2 ^ 63 then (upd n v, None)
           else (v, Some (UnmarshalTypeError ''int'')))
      | JNull \<Rightarrow> (v, None)
      | _ \<Rightarrow> (v, Some (UnmarshalTypeError ''int'')))"

text \<open>
  The element types \<^verbatim>\<open>Comment\<close>, \<^verbatim>\<open>Novel\<close>, \<^verbatim>\<open>Illust\<close> and \<^verbatim>\<open>User\<close> are declared in another
  file. A slice of pointers to one of them is a list over a type parameter, and the
  decoding of a JSON value into such a slice is a parameter \<open>dec\<close>: from the JSON value
  and the slice held so far to the new slice and a possible type error.
\<close>

type_synonym 'c slice_decoder = "json \<Rightarrow> 'c list \<Rightarrow> 'c list \<times> error option"

definition slice_field ::
  "'c slice_decoder \<Rightarrow> ('p \<Rightarrow> 'c list) \<Rightarrow> ('c list \<Rightarrow> 'p \<Rightarrow> 'p) \<Rightarrow> 'p field_decoder" where
  "slice_field dec sel upd j v = (case dec j (sel v) of (xs, e) \<Rightarrow> (upd xs v, e))"

subsection \<open>The response structs\<close>

type_synonym addr = nat

text \<open>\<^verbatim>\<open>api *AppAPI\<close> is a pointer: an address, or \<open>None\<close> for nil.\<close>

record 'c RespComments =
  Comments :: "'c list"
  NextURL :: string
  api :: "addr option"

record 'n RespNovels =
  Novels :: "'n list"
  NextURL :: string
  RankingNovels :: "'n list"
  SearchSpanLimit :: int
  api :: "addr option"

record 'i RespIllusts =
  Illusts :: "'i list"
  NextURL :: string
  RankingIllusts :: "'i list"
  SearchSpanLimit :: int
  api :: "addr option"

record 'u RespUserPreviews =
  UserPreviews :: "'u list"
  NextURL :: string
  api :: "addr option"

record BookmarkTag =
  Count :: int
  Name :: string

record RespBookmarkTags =
  BookmarkTags :: "BookmarkTag list"
  NextURL :: string
  api :: "addr option"

text \<open>
  \<^verbatim>\<open>RespBookmarkTags\<close> has the fields \<^verbatim>\<open>NextURL\<close> and \<^verbatim>\<open>api\<close> of the other four structs,
  and \<^verbatim>\<open>response.go\<close> declares no method on it: nothing in the file reads the two fields.

  The field tables, read off the struct tags. In \<^verbatim>\<open>RespBookmarkTags\<close> the field
  \<^verbatim>\<open>NextURL\<close> has no tag, so its key is the Go field name.
\<close>

definition RespComments_fields :: "'c slice_decoder \<Rightarrow> (string \<times> 'c RespComments field_decoder) list" where
  "RespComments_fields dec =
     [(''comments'', slice_field dec Comments (\<lambda>xs v. v\<lparr>Comments := xs\<rparr>)),
      (''next_url'', string_field (\<lambda>s v. v\<lparr>RespComments.NextURL := s\<rparr>))]"

definition RespNovels_fields :: "'n slice_decoder \<Rightarrow> (string \<times> 'n RespNovels field_decoder) list" where
  "RespNovels_fields dec =
     [(''novels'', slice_field dec Novels (\<lambda>xs v. v\<lparr>Novels := xs\<rparr>)),
      (''next_url'', string_field (\<lambda>s v. v\<lparr>RespNovels.NextURL := s\<rparr>)),
      (''ranking_novels'', slice_field dec RankingNovels (\<lambda>xs v. v\<lparr>RankingNovels := xs\<rparr>)),
      (''search_span_limit'', int_field (\<lambda>n v. v\<lparr>RespNovels.SearchSpanLimit := n\<rparr>))]"

definition RespIllusts_fields :: "'i slice_decoder \<Rightarrow> (string \<times> 'i RespIllusts field_decoder) list" where
  "RespIllusts_fields dec =
     [(''illusts'', slice_field dec Illusts (\<lambda>xs v. v\<lparr>Illusts := xs\<rparr>)),
      (''next_url'', string_field (\<lambda>s v. v\<lparr>RespIllusts.NextURL := s\<rparr>)),
      (''ranking_illusts'', slice_field dec RankingIllusts (\<lambda>xs v. v\<lparr>RankingIllusts := xs\<rparr>)),
      (''search_span_limit'', int_field (\<lambda>n v. v\<lparr>RespIllusts.SearchSpanLimit := n\<rparr>))]"

definition RespUserPreviews_fields ::
  "'u slice_decoder \<Rightarrow> (string \<times> 'u RespUserPreviews field_decoder) list" where
  "RespUserPreviews_fields dec =
     [(''user_previews'', slice_field dec UserPreviews (\<lambda>xs v. v\<lparr>UserPreviews := xs\<rparr>)),
      (''next_url'', string_field (\<lambda>s v. v\<lparr>RespUserPreviews.NextURL := s\<rparr>))]"

definition BookmarkTag_fields :: "(string \<times> BookmarkTag field_decoder) list" where
  "BookmarkTag_fields =
     [(''count'', int_field (\<lambda>n v. v\<lparr>Count := n\<rparr>)),
      (''name'', string_field (\<lambda>s v. v\<lparr>Name := s\<rparr>))]"

fun decode_BookmarkTag_list :: "json list \<Rightarrow> BookmarkTag list \<times> error option" where
  "decode_BookmarkTag_list [] = ([], None)"
| "decode_BookmarkTag_list (j # js) =
     (case unmarshal_struct BookmarkTag_fields j \<lparr>Count = 0, Name = []\<rparr> of
        (t, e1) \<Rightarrow>
          (case decode_BookmarkTag_list js of
             (ts, e2) \<Rightarrow> (t # ts, first_error e1 e2)))"

definition decode_BookmarkTags :: "BookmarkTag slice_decoder" where
  "decode_BookmarkTags j old =
     (case j of
        JNull \<Rightarrow> ([], None)
      | JArr js \<Rightarrow> decode_BookmarkTag_list js
      | _ \<Rightarrow> (old, Some (UnmarshalTypeError ''slice'')))"

definition RespBookmarkTags_fields :: "(string \<times> RespBookmarkTags field_decoder) list" where
  "RespBookmarkTags_fields =
     [(''bookmark_tags'', slice_field decode_BookmarkTags BookmarkTags (\<lambda>xs v. v\<lparr>BookmarkTags := xs\<rparr>)),
      (''NextURL'', string_field (\<lambda>s v. v\<lparr>RespBookmarkTags.NextURL := s\<rparr>))]"

definition unmarshal_RespComments :: "'c slice_decoder \<Rightarrow> 'c RespComments field_decoder" where
  "unmarshal_RespComments dec = unmarshal_struct (RespComments_fields dec)"

definition unmarshal_RespNovels :: "'n slice_decoder \<Rightarrow> 'n RespNovels field_decoder" where
  "unmarshal_RespNovels dec = unmarshal_struct (RespNovels_fields dec)"

definition unmarshal_RespIllusts :: "'i slice_decoder \<Rightarrow> 'i RespIllusts field_decoder" where
  "unmarshal_RespIllusts dec = unmarshal_struct (RespIllusts_fields dec)"

definition unmarshal_RespUserPreviews :: "'u slice_decoder \<Rightarrow> 'u RespUserPreviews field_decoder" where
  "unmarshal_RespUserPreviews dec = unmarshal_struct (RespUserPreviews_fields dec)"

definition unmarshal_RespBookmarkTags :: "RespBookmarkTags field_decoder" where
  "unmarshal_RespBookmarkTags = unmarshal_struct RespBookmarkTags_fields"

subsection \<open>The store and the fetcher\<close>

text \<open>
  A call either returns a value or panics. The heap of a struct type is a list, an
  address is an index into it, and allocation appends: the new address is the length of
  the heap. Reading an address that holds no object (a nil receiver) is a panic.
\<close>

datatype 'a outcome = Returned 'a | Panicked

type_synonym query = "(string \<times> string) list"

datatype reply = Body json | Failed error | Crash

record get_call =
  call_api :: "addr option"
  call_target :: addr
  call_url :: string
  call_query :: "query option"
  call_reply :: reply

record ('w, 'p) store =
  world :: 'w
  calls :: "get_call list"
  heap :: "'p list"

definition deref :: "'p list \<Rightarrow> addr \<Rightarrow> 'p option" where
  "deref h a = (if a < length h then Some (h ! a) else None)"

text \<open>
  The transport (HTTP, authentication, the remote service) is outside this file. It is a
  parameter: from its own state \<open>'w\<close>, the receiver pointer, the URL and the query
  argument, it gives a reply and its new state. The reply is the decoded JSON body, an
  error, or a crash (what a Go method does when it dereferences a nil receiver is the
  transport's business; the parameter may crash, fail or answer there).
\<close>

type_synonym 'w transport = "'w \<Rightarrow> addr option \<Rightarrow> string \<Rightarrow> query option \<Rightarrow> reply \<times> 'w"

text \<open>
  Modelled from the spec: \<^verbatim>\<open>AppAPI.get\<close>, which \<^verbatim>\<open>response.go\<close> calls and does not
  define. The specification gives its contract: \<^verbatim>\<open>get(target, url, extraParams)\<close>
  ``performs the HTTP call, applies current auth, and populates target from the JSON
  response in place'', returning nothing or a fetch error. Here the HTTP call is the
  transport, and populating the target is the decoder \<open>unm\<close> of the target's struct
  applied to the object at the target address. Every invocation is recorded in \<open>calls\<close>
  with its arguments and the transport's reply; the record is a ghost log that no
  operation reads.
\<close>

definition get ::
  "'w transport \<Rightarrow> 'p field_decoder \<Rightarrow> addr option \<Rightarrow> addr \<Rightarrow> string \<Rightarrow> query option \<Rightarrow>
     ('w, 'p) store \<Rightarrow> error option outcome \<times> ('w, 'p) store" where
  "get T unm a v path q st =
     (case T (world st) a path q of
        (rep, w') \<Rightarrow>
          (let st1 = st\<lparr>world := w',
                        calls := calls st @
                          [\<lparr>call_api = a, call_target = v, call_url = path,
                            call_query = q, call_reply = rep\<rparr>]\<rparr>
           in case rep of
                Crash \<Rightarrow> (Panicked, st1)
              | Failed e \<Rightarrow> (Returned (Some e), st1)
              | Body j \<Rightarrow>
                  (case deref (heap st1) v of
                     None \<Rightarrow> (Panicked, st1)
                   | Some tv \<Rightarrow>
                       (case unm j tv of
                          (tv', e) \<Rightarrow> (Returned e, st1\<lparr>heap := (heap st1)[v := tv']\<rparr>)))))"

subsection \<open>The four methods\<close>

type_synonym result = "(addr option \<times> error option) outcome"

definition NextComments ::
  "'w transport \<Rightarrow> 'c slice_decoder \<Rightarrow> addr \<Rightarrow> ('w, 'c RespComments) store \<Rightarrow>
     result \<times> ('w, 'c RespComments) store" where
  "NextComments T dec r st =
     (case deref (heap st) r of
        None \<Rightarrow> (Panicked, st)
      | Some rv \<Rightarrow>
          if RespComments.NextURL rv = [] then (Returned (None, Some ErrEmptyNextURL), st)
          else
            (let rn = length (heap st);
                 st1 = st\<lparr>heap := heap st @
                         [\<lparr>Comments = [], NextURL = [], api = RespComments.api rv\<rparr>]\<rparr>
             in case get T (unmarshal_RespComments dec) (RespComments.api rv) rn
                       (RespComments.NextURL rv) None st1 of
                  (Panicked, st2) \<Rightarrow> (Panicked, st2)
                | (Returned (Some err), st2) \<Rightarrow> (Returned (None, Some err), st2)
                | (Returned None, st2) \<Rightarrow> (Returned (Some rn, None), st2)))"

definition NextNovels ::
  "'w transport \<Rightarrow> 'n slice_decoder \<Rightarrow> addr \<Rightarrow> ('w, 'n RespNovels) store \<Rightarrow>
     result \<times> ('w, 'n RespNovels) store" where
  "NextNovels T dec r st =
     (case deref (heap st) r of
        None \<Rightarrow> (Panicked, st)
      | Some rv \<Rightarrow>
          if RespNovels.NextURL rv = [] then (Returned (None, Some ErrEmptyNextURL), st)
          else
            (let rn = length (heap st);
                 st1 = st\<lparr>heap := heap st @
                         [\<lparr>Novels = [], NextURL = [], RankingNovels = [], SearchSpanLimit = 0,
                           api = RespNovels.api rv\<rparr>]\<rparr>
             in case get T (unmarshal_RespNovels dec) (RespNovels.api rv) rn
                       (RespNovels.NextURL rv) None st1 of
                  (Panicked, st2) \<Rightarrow> (Panicked, st2)
                | (Returned (Some err), st2) \<Rightarrow> (Returned (None, Some err), st2)
                | (Returned None, st2) \<Rightarrow> (Returned (Some rn, None), st2)))"

definition NextIllusts ::
  "'w transport \<Rightarrow> 'i slice_decoder \<Rightarrow> addr \<Rightarrow> ('w, 'i RespIllusts) store \<Rightarrow>
     result \<times> ('w, 'i RespIllusts) store" where
  "NextIllusts T dec r st =
     (case deref (heap st) r of
        None \<Rightarrow> (Panicked, st)
      | Some rv \<Rightarrow>
          if RespIllusts.NextURL rv = [] then (Returned (None, Some ErrEmptyNextURL), st)
          else
            (let rn = length (heap st);
                 st1 = st\<lparr>heap := heap st @
                         [\<lparr>Illusts = [], NextURL = [], RankingIllusts = [], SearchSpanLimit = 0,
                           api = RespIllusts.api rv\<rparr>]\<rparr>
             in case get T (unmarshal_RespIllusts dec) (RespIllusts.api rv) rn
                       (RespIllusts.NextURL rv) None st1 of
                  (Panicked, st2) \<Rightarrow> (Panicked, st2)
                | (Returned (Some err), st2) \<Rightarrow> (Returned (None, Some err), st2)
                | (Returned None, st2) \<Rightarrow> (Returned (Some rn, None), st2)))"

definition NextFollowing ::
  "'w transport \<Rightarrow> 'u slice_decoder \<Rightarrow> addr \<Rightarrow> ('w, 'u RespUserPreviews) store \<Rightarrow>
     result \<times> ('w, 'u RespUserPreviews) store" where
  "NextFollowing T dec r st =
     (case deref (heap st) r of
        None \<Rightarrow> (Panicked, st)
      | Some rv \<Rightarrow>
          if RespUserPreviews.NextURL rv = [] then (Returned (None, Some ErrEmptyNextURL), st)
          else
            (let rn = length (heap st);
                 st1 = st\<lparr>heap := heap st @
                         [\<lparr>UserPreviews = [], NextURL = [], api = RespUserPreviews.api rv\<rparr>]\<rparr>
             in case get T (unmarshal_RespUserPreviews dec) (RespUserPreviews.api rv) rn
                       (RespUserPreviews.NextURL rv) None st1 of
                  (Panicked, st2) \<Rightarrow> (Panicked, st2)
                | (Returned (Some err), st2) \<Rightarrow> (Returned (None, Some err), st2)
                | (Returned None, st2) \<Rightarrow> (Returned (Some rn, None), st2)))"

text \<open>
  The four methods have one shape. \<open>advance\<close> is that shape with the struct-specific
  parts as arguments (the cursor and \<^verbatim>\<open>api\<close> selectors, the composite literal
  \<^verbatim>\<open>&T{api: r.api}\<close>, the decoder); it is used to prove each property once.
\<close>

definition advance ::
  "('p \<Rightarrow> string) \<Rightarrow> ('p \<Rightarrow> addr option) \<Rightarrow> (addr option \<Rightarrow> 'p) \<Rightarrow> 'p field_decoder \<Rightarrow>
     'w transport \<Rightarrow> addr \<Rightarrow> ('w, 'p) store \<Rightarrow> result \<times> ('w, 'p) store" where
  "advance nxt ap new unm T r st =
     (case deref (heap st) r of
        None \<Rightarrow> (Panicked, st)
      | Some rv \<Rightarrow>
          if nxt rv = [] then (Returned (None, Some ErrEmptyNextURL), st)
          else
            (let rn = length (heap st);
                 st1 = st\<lparr>heap := heap st @ [new (ap rv)]\<rparr>
             in case get T unm (ap rv) rn (nxt rv) None st1 of
                  (Panicked, st2) \<Rightarrow> (Panicked, st2)
                | (Returned (Some err), st2) \<Rightarrow> (Returned (None, Some err), st2)
                | (Returned None, st2) \<Rightarrow> (Returned (Some rn, None), st2)))"

subsection \<open>Traversals\<close>

text \<open>
  A caller walks a result set by calling the method on the page the previous call
  returned: \<open>p\<^sub>1 = advance p\<^sub>0\<close>, \<open>p\<^sub>2 = advance p\<^sub>1\<close>, and so on. \<open>traverse adv k\<close> makes
  \<open>k\<close> such calls and stops at the first call that does not return a page with a nil
  error, giving that call's result.
\<close>

fun traverse ::
  "(addr \<Rightarrow> 's \<Rightarrow> result \<times> 's) \<Rightarrow> nat \<Rightarrow> addr \<Rightarrow> 's \<Rightarrow> result \<times> 's" where
  "traverse adv 0 r st = (Returned (Some r, None), st)"
| "traverse adv (Suc k) r st =
     (case adv r st of
        (Returned (Some r', None), st') \<Rightarrow> traverse adv k r' st'
      | other \<Rightarrow> other)"

text \<open>
  A response body carries no cursor when it is an object in which every member whose
  key is \<^verbatim>\<open>next_url\<close> (up to letter case) holds the empty string or null; an object
  without such a member is one.
\<close>

definition empty_next_url :: "json \<Rightarrow> bool" where
  "empty_next_url j =
     (case j of
        JObj kvs \<Rightarrow>
          list_all (\<lambda>(k, v). foldName k = foldName ''next_url'' \<longrightarrow> v = JStr [] \<or> v = JNull) kvs
      | _ \<Rightarrow> False)"

subsection \<open>Example transports and stores\<close>

text \<open>
  Concrete parameters for the instances below. \<open>serve\<close> answers from a table of URLs
  and fails on any other URL. \<open>raw_slice\<close> decodes a JSON array into the list of its
  elements. \<open>one_page p\<close> is the store that holds the single object \<open>p\<close> at address 0,
  and the four \<open>_page\<close> constants are pages without items, with a given cursor and
  \<^verbatim>\<open>api\<close> pointer.
\<close>

definition serve :: "(string \<times> json) list \<Rightarrow> unit transport" where
  "serve tbl w a path q =
     (case map_of tbl path of
        Some j \<Rightarrow> (Body j, w)
      | None \<Rightarrow> (Failed (TransportError ''not found''), w))"

definition raw_slice :: "json slice_decoder" where
  "raw_slice j old =
     (case j of
        JNull \<Rightarrow> ([], None)
      | JArr js \<Rightarrow> (js, None)
      | _ \<Rightarrow> (old, Some (UnmarshalTypeError ''slice'')))"

definition one_page :: "'p \<Rightarrow> (unit, 'p) store" where
  "one_page p = \<lparr>world = (), calls = [], heap = [p]\<rparr>"

definition comments_page :: "string \<Rightarrow> addr option \<Rightarrow> json RespComments" where
  "comments_page u a = \<lparr>Comments = [], NextURL = u, api = a\<rparr>"

definition novels_page :: "string \<Rightarrow> addr option \<Rightarrow> json RespNovels" where
  "novels_page u a =
     \<lparr>Novels = [], NextURL = u, RankingNovels = [], SearchSpanLimit = 0, api = a\<rparr>"

definition illusts_page :: "string \<Rightarrow> addr option \<Rightarrow> json RespIllusts" where
  "illusts_page u a =
     \<lparr>Illusts = [], NextURL = u, RankingIllusts = [], SearchSpanLimit = 0, api = a\<rparr>"

definition previews_page :: "string \<Rightarrow> addr option \<Rightarrow> json RespUserPreviews" where
  "previews_page u a = \<lparr>UserPreviews = [], NextURL = u, api = a\<rparr>"

text \<open>
  A service with two more pages behind the cursor \<^verbatim>\<open>u\<close>: the body at \<^verbatim>\<open>u\<close> points to
  \<^verbatim>\<open>v\<close>, and the body at \<^verbatim>\<open>v\<close> has an empty \<^verbatim>\<open>next_url\<close>.
\<close>

definition two_pages :: "(string \<times> json) list" where
  "two_pages =
     [(''u'', JObj [(''next_url'', JStr ''v'')]),
      (''v'', JObj [(''next_url'', JStr [])])]"

text \<open>The traversals of that service from a first page whose cursor is \<^verbatim>\<open>u\<close>.\<close>

definition walk_comments :: "nat \<Rightarrow> result \<times> (unit, json RespComments) store" where
  "walk_comments k =
     traverse (NextComments (serve two_pages) raw_slice) k 0
       (one_page (comments_page ''u'' (Some 5)))"

definition walk_novels :: "nat \<Rightarrow> result \<times> (unit, json RespNovels) store" where
  "walk_novels k =
     traverse (NextNovels (serve two_pages) raw_slice) k 0
       (one_page (novels_page ''u'' (Some 5)))"

definition walk_illusts :: "nat \<Rightarrow> result \<times> (unit, json RespIllusts) store" where
  "walk_illusts k =
     traverse (NextIllusts (serve two_pages) raw_slice) k 0
       (one_page (illusts_page ''u'' (Some 5)))"

definition walk_previews :: "nat \<Rightarrow> result \<times> (unit, json RespUserPreviews) store" where
  "walk_previews k =
     traverse (NextFollowing (serve two_pages) raw_slice) k 0
       (one_page (previews_page ''u'' (Some 5)))"

section \<open>Auxiliary facts\<close>

subsection \<open>The methods as instances of the common shape\<close>

lemma NextComments_advance:
  "NextComments T dec =
     advance RespComments.NextURL RespComments.api
       (\<lambda>a. \<lparr>Comments = [], NextURL = [], api = a\<rparr>) (unmarshal_RespComments dec) T"
  by (simp add: fun_eq_iff NextComments_def advance_def)

lemma NextNovels_advance:
  "NextNovels T dec =
     advance RespNovels.NextURL RespNovels.api
       (\<lambda>a. \<lparr>Novels = [], NextURL = [], RankingNovels = [], SearchSpanLimit = 0, api = a\<rparr>)
       (unmarshal_RespNovels dec) T"
  by (simp add: fun_eq_iff NextNovels_def advance_def)

lemma NextIllusts_advance:
  "NextIllusts T dec =
     advance RespIllusts.NextURL RespIllusts.api
       (\<lambda>a. \<lparr>Illusts = [], NextURL = [], RankingIllusts = [], SearchSpanLimit = 0, api = a\<rparr>)
       (unmarshal_RespIllusts dec) T"
  by (simp add: fun_eq_iff NextIllusts_def advance_def)

lemma NextFollowing_advance:
  "NextFollowing T dec =
     advance RespUserPreviews.NextURL RespUserPreviews.api
       (\<lambda>a. \<lparr>UserPreviews = [], NextURL = [], api = a\<rparr>) (unmarshal_RespUserPreviews dec) T"
  by (simp add: fun_eq_iff NextFollowing_def advance_def)

text \<open>The call of \<open>get\<close> on the store a method has just extended with the new struct.\<close>

lemma get_fresh:
  "get T unm a (length h) u q \<lparr>world = w, calls = cs, heap = h @ [nv]\<rparr> =
     (case T w a u q of
        (rep, w') \<Rightarrow>
          (let cs' = cs @ [\<lparr>call_api = a, call_target = length h, call_url = u,
                            call_query = q, call_reply = rep\<rparr>]
           in case rep of
                Crash \<Rightarrow> (Panicked, \<lparr>world = w', calls = cs', heap = h @ [nv]\<rparr>)
              | Failed e \<Rightarrow> (Returned (Some e), \<lparr>world = w', calls = cs', heap = h @ [nv]\<rparr>)
              | Body j \<Rightarrow>
                  (Returned (snd (unm j nv)),
                   \<lparr>world = w', calls = cs', heap = h @ [fst (unm j nv)]\<rparr>)))"
  by (simp add: get_def deref_def Let_def split: prod.splits reply.splits)

lemma advance_unfold:
  "advance nxt ap new unm T r \<lparr>world = w, calls = cs, heap = h\<rparr> =
     (if r < length h then
        (if nxt (h ! r) = [] then
           (Returned (None, Some ErrEmptyNextURL), \<lparr>world = w, calls = cs, heap = h\<rparr>)
         else
           (case T w (ap (h ! r)) (nxt (h ! r)) None of
              (rep, w') \<Rightarrow>
                (let cs' = cs @ [\<lparr>call_api = ap (h ! r), call_target = length h,
                                  call_url = nxt (h ! r), call_query = None, call_reply = rep\<rparr>];
                     nv = new (ap (h ! r))
                 in case rep of
                      Crash \<Rightarrow> (Panicked, \<lparr>world = w', calls = cs', heap = h @ [nv]\<rparr>)
                    | Failed e \<Rightarrow>
                        (Returned (None, Some e), \<lparr>world = w', calls = cs', heap = h @ [nv]\<rparr>)
                    | Body j \<Rightarrow>
                        (case snd (unm j nv) of
                           None \<Rightarrow>
                             (Returned (Some (length h), None),
                              \<lparr>world = w', calls = cs', heap = h @ [fst (unm j nv)]\<rparr>)
                         | Some e \<Rightarrow>
                             (Returned (None, Some e),
                              \<lparr>world = w', calls = cs', heap = h @ [fst (unm j nv)]\<rparr>)))))
      else (Panicked, \<lparr>world = w, calls = cs, heap = h\<rparr>))"
  by (simp add: advance_def deref_def get_fresh Let_def split: prod.splits reply.splits option.splits)

subsection \<open>What decoding keeps\<close>

lemma find_field_mem:
  "find_field fs k = Some d \<Longrightarrow> \<exists>n. (n, d) \<in> set fs \<and> foldName n = foldName k"
proof (cases "map_of fs k")
  case (Some d')
  assume "find_field fs k = Some d"
  with Some have "d' = d" by (simp add: find_field_def)
  with Some have "(k, d) \<in> set fs" by (simp add: map_of_SomeD)
  then show ?thesis by blast
next
  case None
  assume "find_field fs k = Some d"
  with None have "map_of (map (\<lambda>(n, d). (foldName n, d)) fs) (foldName k) = Some d"
    by (simp add: find_field_def)
  then have "(foldName k, d) \<in> set (map (\<lambda>(n, d). (foldName n, d)) fs)"
    by (rule map_of_SomeD)
  then show ?thesis by auto
qed

lemma decode_members_keeps:
  assumes "\<And>n d j v. (n, d) \<in> set fs \<Longrightarrow> f (fst (d j v)) = f v"
  shows "f (fst (decode_members fs kvs v)) = f v"
proof (induction kvs arbitrary: v)
  case Nil
  show ?case by simp
next
  case (Cons kv kvs)
  obtain k j where kv: "kv = (k, j)" by (cases kv)
  show ?case
  proof (cases "find_field fs k")
    case None
    with kv Cons.IH show ?thesis by simp
  next
    case (Some d)
    then obtain n where "(n, d) \<in> set fs" using find_field_mem by blast
    then have "f (fst (d j v)) = f v" by (rule assms)
    moreover have "f (fst (decode_members fs kvs (fst (d j v)))) = f (fst (d j v))"
      by (rule Cons.IH)
    ultimately show ?thesis using kv Some by (simp add: case_prod_beta)
  qed
qed

lemma unmarshal_struct_keeps:
  assumes "\<And>n d j v. (n, d) \<in> set fs \<Longrightarrow> f (fst (d j v)) = f v"
  shows "f (fst (unmarshal_struct fs j v)) = f v"
proof -
  have "f (fst (decode_members fs kvs v)) = f v" for kvs
    by (rule decode_members_keeps) (rule assms)
  then show ?thesis by (cases j) (simp_all add: unmarshal_struct_def)
qed

lemma string_field_keeps: "(\<And>s v. f (upd s v) = f v) \<Longrightarrow> f (fst (string_field upd j v)) = f v"
  by (cases j) (simp_all add: string_field_def)

lemma int_field_keeps: "(\<And>n v. f (upd n v) = f v) \<Longrightarrow> f (fst (int_field upd j v)) = f v"
  by (cases j) (simp_all add: int_field_def)

lemma slice_field_keeps: "(\<And>xs v. f (upd xs v) = f v) \<Longrightarrow> f (fst (slice_field dec sel upd j v)) = f v"
  by (simp add: slice_field_def split: prod.splits)

lemma unmarshal_RespComments_api:
  "RespComments.api (fst (unmarshal_RespComments dec j v)) = RespComments.api v"
  unfolding unmarshal_RespComments_def
  by (rule unmarshal_struct_keeps)
     (auto simp: RespComments_fields_def string_field_keeps slice_field_keeps)

lemma unmarshal_RespNovels_api:
  "RespNovels.api (fst (unmarshal_RespNovels dec j v)) = RespNovels.api v"
  unfolding unmarshal_RespNovels_def
  by (rule unmarshal_struct_keeps)
     (auto simp: RespNovels_fields_def string_field_keeps slice_field_keeps int_field_keeps)

lemma unmarshal_RespIllusts_api:
  "RespIllusts.api (fst (unmarshal_RespIllusts dec j v)) = RespIllusts.api v"
  unfolding unmarshal_RespIllusts_def
  by (rule unmarshal_struct_keeps)
     (auto simp: RespIllusts_fields_def string_field_keeps slice_field_keeps int_field_keeps)

lemma unmarshal_RespUserPreviews_api:
  "RespUserPreviews.api (fst (unmarshal_RespUserPreviews dec j v)) = RespUserPreviews.api v"
  unfolding unmarshal_RespUserPreviews_def
  by (rule unmarshal_struct_keeps)
     (auto simp: RespUserPreviews_fields_def string_field_keeps slice_field_keeps)

text \<open>A body without a cursor leaves an empty cursor field empty.\<close>

lemma string_field_empty:
  "j = JStr [] \<or> j = JNull \<Longrightarrow> (\<And>s v. f (upd s v) = s) \<Longrightarrow> f v = [] \<Longrightarrow>
     f (fst (string_field upd j v)) = []"
  by (auto simp: string_field_def)

lemma decode_members_empty_cursor:
  assumes keep: "\<And>n d j v. (n, d) \<in> set fs \<Longrightarrow> foldName n \<noteq> foldName ''next_url'' \<Longrightarrow>
                   f (fst (d j v)) = f v"
    and cur: "\<And>n d j v. (n, d) \<in> set fs \<Longrightarrow> foldName n = foldName ''next_url'' \<Longrightarrow>
                   j = JStr [] \<or> j = JNull \<Longrightarrow> f v = [] \<Longrightarrow> f (fst (d j v)) = []"
    and body: "list_all (\<lambda>(k, v). foldName k = foldName ''next_url'' \<longrightarrow> v = JStr [] \<or> v = JNull) kvs"
    and start: "f v = []"
  shows "f (fst (decode_members fs kvs v)) = []"
  using body start
proof (induction kvs arbitrary: v)
  case Nil
  then show ?case by simp
next
  case (Cons kv kvs)
  obtain k j where kv: "kv = (k, j)" by (cases kv)
  from Cons.prems kv have rest:
    "list_all (\<lambda>(k, v). foldName k = foldName ''next_url'' \<longrightarrow> v = JStr [] \<or> v = JNull) kvs"
    and here: "foldName k = foldName ''next_url'' \<longrightarrow> j = JStr [] \<or> j = JNull"
    by simp_all
  show ?case
  proof (cases "find_field fs k")
    case None
    with kv Cons.IH [OF rest Cons.prems(2)] show ?thesis by simp
  next
    case (Some d)
    then obtain n where n: "(n, d) \<in> set fs" "foldName n = foldName k"
      using find_field_mem by blast
    have "f (fst (d j v)) = []"
    proof (cases "foldName k = foldName ''next_url''")
      case True
      with here n Cons.prems(2) show ?thesis by (auto intro: cur)
    next
      case False
      with n Cons.prems(2) keep [of n d j v] show ?thesis by simp
    qed
    then have "f (fst (decode_members fs kvs (fst (d j v)))) = []"
      by (rule Cons.IH [OF rest])
    then show ?thesis using kv Some by (simp add: case_prod_beta)
  qed
qed

lemma unmarshal_struct_empty_cursor:
  assumes "\<And>n d j v. (n, d) \<in> set fs \<Longrightarrow> foldName n \<noteq> foldName ''next_url'' \<Longrightarrow>
                   f (fst (d j v)) = f v"
    and "\<And>n d j v. (n, d) \<in> set fs \<Longrightarrow> foldName n = foldName ''next_url'' \<Longrightarrow>
                   j = JStr [] \<or> j = JNull \<Longrightarrow> f v = [] \<Longrightarrow> f (fst (d j v)) = []"
    and "empty_next_url j" and "f v = []"
  shows "f (fst (unmarshal_struct fs j v)) = []"
proof (cases j)
  case (JObj kvs)
  with assms(3) have
    "list_all (\<lambda>(k, v). foldName k = foldName ''next_url'' \<longrightarrow> v = JStr [] \<or> v = JNull) kvs"
    by (simp add: empty_next_url_def)
  then have "f (fst (decode_members fs kvs v)) = []"
    by (rule decode_members_empty_cursor [where f = f, rotated 2]) (fact assms)+
  with JObj show ?thesis by (simp add: unmarshal_struct_def)
qed (use assms(3) in \<open>simp_all add: empty_next_url_def\<close>)

lemma unmarshal_RespComments_empty:
  "empty_next_url j \<Longrightarrow> RespComments.NextURL v = [] \<Longrightarrow>
     RespComments.NextURL (fst (unmarshal_RespComments dec j v)) = []"
  unfolding unmarshal_RespComments_def
  apply (rule unmarshal_struct_empty_cursor)
  apply (auto simp: RespComments_fields_def string_field_keeps slice_field_keeps string_field_empty
       foldName_def foldChar_def)
  done

lemma unmarshal_RespNovels_empty:
  "empty_next_url j \<Longrightarrow> RespNovels.NextURL v = [] \<Longrightarrow>
     RespNovels.NextURL (fst (unmarshal_RespNovels dec j v)) = []"
  unfolding unmarshal_RespNovels_def
  apply (rule unmarshal_struct_empty_cursor)
  apply (auto simp: RespNovels_fields_def string_field_keeps slice_field_keeps int_field_keeps
       string_field_empty foldName_def foldChar_def)
  done

lemma unmarshal_RespIllusts_empty:
  "empty_next_url j \<Longrightarrow> RespIllusts.NextURL v = [] \<Longrightarrow>
     RespIllusts.NextURL (fst (unmarshal_RespIllusts dec j v)) = []"
  unfolding unmarshal_RespIllusts_def
  apply (rule unmarshal_struct_empty_cursor)
  apply (auto simp: RespIllusts_fields_def string_field_keeps slice_field_keeps int_field_keeps
       string_field_empty foldName_def foldChar_def)
  done

lemma unmarshal_RespUserPreviews_empty:
  "empty_next_url j \<Longrightarrow> RespUserPreviews.NextURL v = [] \<Longrightarrow>
     RespUserPreviews.NextURL (fst (unmarshal_RespUserPreviews dec j v)) = []"
  unfolding unmarshal_RespUserPreviews_def
  apply (rule unmarshal_struct_empty_cursor)
  apply (auto simp: RespUserPreviews_fields_def string_field_keeps slice_field_keeps
       string_field_empty foldName_def foldChar_def)
  done

subsection \<open>One call\<close>

lemma store_eq: "(st :: ('w, 'p) store) = \<lparr>world = world st, calls = calls st, heap = heap st\<rparr>"
  by simp

lemma advance_empty:
  "deref (heap st) r = Some rv \<Longrightarrow> nxt rv = [] \<Longrightarrow>
     advance nxt ap new unm T r st = (Returned (None, Some ErrEmptyNextURL), st)"
  by (simp add: advance_def)

text \<open>The result and the final store of one call, by the reply of the transport.\<close>

lemma advance_cases:
  assumes "deref (heap st) r = Some rv"
  shows "advance nxt ap new unm T r st =
     (if nxt rv = [] then (Returned (None, Some ErrEmptyNextURL), st)
      else
        (let rep = fst (T (world st) (ap rv) (nxt rv) None);
             w' = snd (T (world st) (ap rv) (nxt rv) None);
             cs' = calls st @ [\<lparr>call_api = ap rv, call_target = length (heap st),
                                call_url = nxt rv, call_query = None, call_reply = rep\<rparr>];
             nv = new (ap rv)
         in case rep of
              Crash \<Rightarrow> (Panicked, \<lparr>world = w', calls = cs', heap = heap st @ [nv]\<rparr>)
            | Failed e \<Rightarrow>
                (Returned (None, Some e), \<lparr>world = w', calls = cs', heap = heap st @ [nv]\<rparr>)
            | Body j \<Rightarrow>
                (case snd (unm j nv) of
                   None \<Rightarrow>
                     (Returned (Some (length (heap st)), None),
                      \<lparr>world = w', calls = cs', heap = heap st @ [fst (unm j nv)]\<rparr>)
                 | Some e \<Rightarrow>
                     (Returned (None, Some e),
                      \<lparr>world = w', calls = cs', heap = heap st @ [fst (unm j nv)]\<rparr>))))"
proof -
  from assms have r: "r < length (heap st)" and rv: "heap st ! r = rv"
    by (auto simp: deref_def split: if_splits)
  show ?thesis
    by (subst store_eq [of st], subst advance_unfold)
       (simp add: r rv Let_def split: prod.splits reply.splits option.splits)
qed

lemma advance_dead:
  "deref (heap st) r = None \<Longrightarrow> advance nxt ap new unm T r st = (Panicked, st)"
  by (simp add: advance_def)

lemma advance_xor:
  "advance nxt ap new unm T r st = (Returned (p, e), st') \<Longrightarrow> (p = None) \<noteq> (e = None)"
proof (cases "deref (heap st) r")
  case None
  assume "advance nxt ap new unm T r st = (Returned (p, e), st')"
  with None show ?thesis by (simp add: advance_dead)
next
  case (Some rv)
  assume "advance nxt ap new unm T r st = (Returned (p, e), st')"
  then show ?thesis
    by (auto simp: advance_cases [OF Some] Let_def
          split: if_splits reply.splits option.splits intro: sym)
qed

lemma advance_frame:
  assumes "deref (heap st) r = Some rv"
  shows "take (length (heap st)) (heap (snd (advance nxt ap new unm T r st))) = heap st"
  by (simp add: advance_cases [OF assms] Let_def split: reply.splits option.splits)

lemma deref_take:
  "take (length h) h' = h \<Longrightarrow> deref h a = Some v \<Longrightarrow> deref h' a = Some v"
proof -
  assume t: "take (length h) h' = h" and d: "deref h a = Some v"
  from d have a: "a < length h" and v: "h ! a = v" by (auto simp: deref_def split: if_splits)
  from arg_cong [OF t, of length] have "min (length h) (length h') = length h" by simp
  then have "length h \<le> length h'" by simp
  moreover from a have "take (length h) h' ! a = h' ! a" by simp
  with t have "h' ! a = h ! a" by simp
  ultimately show ?thesis using a v by (simp add: deref_def)
qed

lemma advance_success:
  assumes "deref (heap st) r = Some rv"
    and "advance nxt ap new unm T r st = (Returned (Some rn, e), st')"
  shows "e = None \<and> rn = length (heap st) \<and> nxt rv \<noteq> [] \<and>
         (\<exists>j. fst (T (world st) (ap rv) (nxt rv) None) = Body j \<and>
              snd (unm j (new (ap rv))) = None \<and>
              heap st' = heap st @ [fst (unm j (new (ap rv)))] \<and>
              calls st' = calls st @ [\<lparr>call_api = ap rv, call_target = length (heap st),
                 call_url = nxt rv, call_query = None, call_reply = Body j\<rparr>])"
  using assms(2)
  by (auto simp: advance_cases [OF assms(1)] Let_def split: if_splits reply.splits option.splits)

lemma advance_calls:
  assumes "deref (heap st) r = Some rv"
  shows "calls (snd (advance nxt ap new unm T r st)) =
     (if nxt rv = [] then calls st
      else calls st @ [\<lparr>call_api = ap rv, call_target = length (heap st), call_url = nxt rv,
             call_query = None, call_reply = fst (T (world st) (ap rv) (nxt rv) None)\<rparr>])"
  by (simp add: advance_cases [OF assms] Let_def split: reply.splits option.splits)

lemma advance_error_nil_page:
  "fst (advance nxt ap new unm T r st) = Returned (p, Some e) \<Longrightarrow> p = None"
  using advance_xor [of nxt ap new unm T r st p "Some e" "snd (advance nxt ap new unm T r st)"]
  by (cases "advance nxt ap new unm T r st") simp

lemma advance_get_error_fst:
  "deref (heap st) r = Some rv \<Longrightarrow> nxt rv \<noteq> [] \<Longrightarrow>
   fst (get T unm (ap rv) (length (heap st)) (nxt rv) None (st\<lparr>heap := heap st @ [new (ap rv)]\<rparr>))
     = Returned (Some e) \<Longrightarrow>
   fst (advance nxt ap new unm T r st) = Returned (None, Some e)"
  by (cases "get T unm (ap rv) (length (heap st)) (nxt rv) None
               (st\<lparr>heap := heap st @ [new (ap rv)]\<rparr>)")
     (simp add: advance_def Let_def)

lemma advance_original:
  assumes "deref (heap st) r = Some rv"
  shows "deref (heap (snd (advance nxt ap new unm T r st))) r = Some rv"
  using advance_frame [OF assms] assms by (rule deref_take)

lemma advance_fresh:
  assumes "deref (heap st) r = Some rv"
    and "fst (advance nxt ap new unm T r st) = Returned (Some p, e)"
  shows "p \<noteq> r \<and> deref (heap st) p = None"
proof -
  from assms(2) have "advance nxt ap new unm T r st
      = (Returned (Some p, e), snd (advance nxt ap new unm T r st))"
    by (cases "advance nxt ap new unm T r st") simp
  from advance_success [OF assms(1) this] have "p = length (heap st)" by blast
  moreover from assms(1) have "r < length (heap st)"
    by (simp add: deref_def split: if_splits)
  ultimately show ?thesis by (simp add: deref_def)
qed

text \<open>The last call of a traversal, and a traversal that has stopped.\<close>

lemma traverse_snoc:
  "traverse adv (Suc k) r st =
     (case traverse adv k r st of
        (Returned (Some rk, None), sk) \<Rightarrow> adv rk sk
      | other \<Rightarrow> other)"
proof (induction k arbitrary: r st)
  case 0
  show ?case by (simp split: prod.splits outcome.splits option.splits)
next
  case (Suc k)
  show ?case
    apply (subst traverse.simps(2))
    apply (subst (2) traverse.simps(2))
    apply (simp only: Suc.IH split: prod.splits outcome.splits option.splits)
    apply auto
    done
qed

lemma traverse_stuck:
  assumes "traverse adv k r st = (res, sk)" and "\<And>p. res \<noteq> Returned (Some p, None)"
  shows "traverse adv (k + m) r st = (res, sk)"
proof (induction m)
  case 0
  from assms(1) show ?case by simp
next
  case (Suc m)
  have "traverse adv (Suc (k + m)) r st = (res, sk)"
    using assms(2) by (subst traverse_snoc) (auto simp: Suc.IH split: outcome.splits option.splits)
  then show ?case by simp
qed

subsection \<open>Chains of calls\<close>

lemma advance_live:
  "advance nxt ap new unm T r st = (Returned x, st') \<Longrightarrow> \<exists>rv. deref (heap st) r = Some rv"
  by (cases "deref (heap st) r") (simp_all add: advance_dead)

lemma deref_append_new: "deref (h @ [v]) (length h) = Some v"
  by (simp add: deref_def)

lemma traverse_api:
  assumes unm: "\<And>j v. ap (fst (unm j v)) = ap v" and new: "\<And>a. ap (new a) = a"
  shows "traverse (advance nxt ap new unm T) k r st = (Returned (Some rk, e), sk) \<Longrightarrow>
         deref (heap st) r = Some rv \<Longrightarrow>
         \<exists>vk. deref (heap sk) rk = Some vk \<and> ap vk = ap rv"
proof (induction k arbitrary: r st rv)
  case 0
  then show ?case by simp
next
  case (Suc k)
  obtain res s1 where step: "advance nxt ap new unm T r st = (res, s1)"
    by (cases "advance nxt ap new unm T r st")
  show ?case
  proof (cases "\<exists>r1. res = Returned (Some r1, None)")
    case True
    then obtain r1 where res: "res = Returned (Some r1, None)" by blast
    from advance_success [OF Suc.prems(2) step [unfolded res]]
    obtain j where r1: "r1 = length (heap st)"
      and h1: "heap s1 = heap st @ [fst (unm j (new (ap rv)))]" by blast
    have live: "deref (heap s1) r1 = Some (fst (unm j (new (ap rv))))"
      by (simp add: r1 h1 deref_append_new)
    from Suc.prems(1) step res
    have "traverse (advance nxt ap new unm T) k r1 s1 = (Returned (Some rk, e), sk)" by simp
    from Suc.IH [OF this live] show ?thesis by (simp add: unm new)
  next
    case False
    with Suc.prems(1) step have "(res, s1) = (Returned (Some rk, e), sk)"
      by (auto split: outcome.splits option.splits)
    with step have st: "advance nxt ap new unm T r st = (Returned (Some rk, e), sk)" by simp
    from advance_success [OF Suc.prems(2) st] have "e = None" by blast
    with False st step show ?thesis by simp
  qed
qed

lemma traverse_last_step:
  assumes "traverse adv (Suc k) r st = (Returned (Some rk, None), sk)"
  shows "\<exists>r' s'. traverse adv k r st = (Returned (Some r', None), s') \<and>
                 adv r' s' = (Returned (Some rk, None), sk)"
proof -
  obtain res s' where t: "traverse adv k r st = (res, s')" by (cases "traverse adv k r st")
  have snoc:
    "(case (res, s') of
        (Returned (Some r', None), s') \<Rightarrow> adv r' s'
      | other \<Rightarrow> other) = (Returned (Some rk, None), sk)"
    using assms by (simp only: traverse_snoc t)
  show ?thesis
  proof (cases "\<exists>r'. res = Returned (Some r', None)")
    case True
    then obtain r' where "res = Returned (Some r', None)" by blast
    with t snoc show ?thesis by simp
  next
    case False
    with snoc have "(res, s') = (Returned (Some rk, None), sk)"
      by (auto split: outcome.splits option.splits)
    with False show ?thesis by simp
  qed
qed

lemma traverse_terminal:
  assumes E: "\<And>j v. empty_next_url j \<Longrightarrow> nxt v = [] \<Longrightarrow> nxt (fst (unm j v)) = []"
    and new: "\<And>a. nxt (new a) = []"
    and k: "0 < k"
    and chain: "traverse (advance nxt ap new unm T) k r st = (Returned (Some rk, None), sk)"
    and reply: "call_reply (last (calls sk)) = Body j"
    and empty: "empty_next_url j"
  shows "advance nxt ap new unm T rk sk = (Returned (None, Some ErrEmptyNextURL), sk)"
    and "\<forall>m>k. traverse (advance nxt ap new unm T) m r st
                  = (Returned (None, Some ErrEmptyNextURL), sk)"
proof -
  let ?adv = "advance nxt ap new unm T"
  from k obtain k' where k': "k = Suc k'" by (cases k) auto
  from traverse_last_step [OF chain [unfolded k']]
  obtain r' s' where prev: "traverse ?adv k' r st = (Returned (Some r', None), s')"
    and step: "?adv r' s' = (Returned (Some rk, None), sk)" by blast
  from advance_live [OF step] obtain rv where live: "deref (heap s') r' = Some rv" by blast
  from advance_success [OF live step]
  obtain j' where rk: "rk = length (heap s')"
    and dec: "heap sk = heap s' @ [fst (unm j' (new (ap rv)))]"
    and log: "calls sk = calls s' @ [\<lparr>call_api = ap rv, call_target = length (heap s'),
                 call_url = nxt rv, call_query = None, call_reply = Body j'\<rparr>]"
    by blast
  from log reply have "j' = j" by simp
  with dec rk have page: "deref (heap sk) rk = Some (fst (unm j (new (ap rv))))"
    by (simp add: deref_append_new)
  have "nxt (fst (unm j (new (ap rv)))) = []" by (rule E [OF empty new])
  with page show stop: "?adv rk sk = (Returned (None, Some ErrEmptyNextURL), sk)"
    by (rule advance_empty)
  have next_step: "traverse ?adv (Suc k) r st = (Returned (None, Some ErrEmptyNextURL), sk)"
    by (subst traverse_snoc) (simp add: chain stop)
  show "\<forall>m>k. traverse ?adv m r st = (Returned (None, Some ErrEmptyNextURL), sk)"
  proof (intro allI impI)
    fix m assume "k < m"
    then obtain d where "m = Suc k + d" using less_iff_Suc_add by auto
    with traverse_stuck [OF next_step, of d] show
      "traverse ?adv m r st = (Returned (None, Some ErrEmptyNextURL), sk)" by simp
  qed
qed

lemma traverse_one: "traverse adv (Suc 0) r st = adv r st"
  by (simp split: prod.splits outcome.splits option.splits)

lemma advance_outcome:
  "(case fst (advance nxt ap new unm T r st) of
      Returned (p, e) \<Rightarrow> (p = None) \<noteq> (e = None)
    | Panicked \<Rightarrow>
        deref (heap st) r = None \<or>
        (\<exists>v. deref (heap st) r = Some v \<and> nxt v \<noteq> [] \<and>
             fst (T (world st) (ap v) (nxt v) None) = Crash))"
proof (cases "deref (heap st) r")
  case None
  then show ?thesis by (simp add: advance_dead)
next
  case (Some rv)
  show ?thesis
    by (simp add: advance_cases [OF Some] Some Let_def split: reply.splits option.splits)
qed

lemma traverse_api_fst:
  assumes "\<And>j v. ap (fst (unm j v)) = ap v" and "\<And>a. ap (new a) = a"
    and "fst (traverse (advance nxt ap new unm T) k r st) = Returned (Some rk, e)"
    and "deref (heap st) r = Some rv"
  shows "\<exists>vk. deref (heap (snd (traverse (advance nxt ap new unm T) k r st))) rk = Some vk \<and>
              ap vk = ap rv"
proof -
  from assms(3) have "traverse (advance nxt ap new unm T) k r st
      = (Returned (Some rk, e), snd (traverse (advance nxt ap new unm T) k r st))"
    by (cases "traverse (advance nxt ap new unm T) k r st") simp
  then show ?thesis
    by (rule traverse_api [where ap = ap and unm = unm and new = new, rotated 2])
       (fact assms)+
qed

section \<open>The claims\<close>

lemmas advance_eqs =
  NextComments_advance NextNovels_advance NextIllusts_advance NextFollowing_advance

lemmas example_defs =
  one_page_def comments_page_def novels_page_def illusts_page_def previews_page_def deref_def

lemmas run_defs =
  NextComments_def NextNovels_def NextIllusts_def NextFollowing_def get_def serve_def
  two_pages_def raw_slice_def
  unmarshal_RespComments_def unmarshal_RespNovels_def unmarshal_RespIllusts_def
  unmarshal_RespUserPreviews_def unmarshal_struct_def
  RespComments_fields_def RespNovels_fields_def RespIllusts_fields_def
  RespUserPreviews_fields_def find_field_def foldName_def foldChar_def
  string_field_def int_field_def slice_field_def first_error_def Let_def

text \<open>
  Claim C1. A method called on a page whose \<^verbatim>\<open>NextURL\<close> is the empty string returns a nil
  page and \<^verbatim>\<open>ErrEmptyNextURL\<close>, and the store it returns is the store it was given: the
  log of \<open>get\<close> calls has not grown and the transport's state is untouched, whatever the
  transport is.
\<close>

theorem empty_cursor_fails_fast:
  "(deref (heap sc) r = Some vc \<and> RespComments.NextURL vc = [] \<longrightarrow>
      NextComments T dc r sc = (Returned (None, Some ErrEmptyNextURL), sc)) \<and>
   (deref (heap sn) r = Some vn \<and> RespNovels.NextURL vn = [] \<longrightarrow>
      NextNovels T dn r sn = (Returned (None, Some ErrEmptyNextURL), sn)) \<and>
   (deref (heap si) r = Some vi \<and> RespIllusts.NextURL vi = [] \<longrightarrow>
      NextIllusts T di r si = (Returned (None, Some ErrEmptyNextURL), si)) \<and>
   (deref (heap su) r = Some vu \<and> RespUserPreviews.NextURL vu = [] \<longrightarrow>
      NextFollowing T du r su = (Returned (None, Some ErrEmptyNextURL), su))"
  by (simp add: advance_eqs advance_empty)

theorem empty_cursor_fails_fast_witness:
  "NextComments (serve []) raw_slice 0 (one_page (comments_page [] (Some 5)))
     = (Returned (None, Some ErrEmptyNextURL), one_page (comments_page [] (Some 5))) \<and>
   NextNovels (serve []) raw_slice 0 (one_page (novels_page [] (Some 5)))
     = (Returned (None, Some ErrEmptyNextURL), one_page (novels_page [] (Some 5))) \<and>
   NextIllusts (serve []) raw_slice 0 (one_page (illusts_page [] (Some 5)))
     = (Returned (None, Some ErrEmptyNextURL), one_page (illusts_page [] (Some 5))) \<and>
   NextFollowing (serve []) raw_slice 0 (one_page (previews_page [] (Some 5)))
     = (Returned (None, Some ErrEmptyNextURL), one_page (previews_page [] (Some 5)))"
  using empty_cursor_fails_fast
    [where r = 0 and T = "serve []"
       and sc = "one_page (comments_page [] (Some 5))" and vc = "comments_page [] (Some 5)"
       and sn = "one_page (novels_page [] (Some 5))" and vn = "novels_page [] (Some 5)"
       and si = "one_page (illusts_page [] (Some 5))" and vi = "illusts_page [] (Some 5)"
       and su = "one_page (previews_page [] (Some 5))" and vu = "previews_page [] (Some 5)"
       and dc = raw_slice and dn = raw_slice and di = raw_slice and du = raw_slice]
  by (simp add: example_defs)

text \<open>
  Claim C4. On a page with a non-empty cursor, when the call of \<open>get\<close> that the method
  makes returns an error, the method returns that same error value with a nil page.
  More generally, whenever a method returns a non-nil error, the page it returns is nil.
\<close>

theorem fetch_error_propagates:
  "(deref (heap sc) r = Some vc \<and> RespComments.NextURL vc \<noteq> [] \<and>
    fst (get T (unmarshal_RespComments dc) (RespComments.api vc) (length (heap sc))
          (RespComments.NextURL vc) None
          (sc\<lparr>heap := heap sc @ [\<lparr>Comments = [], NextURL = [], api = RespComments.api vc\<rparr>]\<rparr>))
      = Returned (Some e) \<longrightarrow>
      fst (NextComments T dc r sc) = Returned (None, Some e)) \<and>
   (deref (heap sn) r = Some vn \<and> RespNovels.NextURL vn \<noteq> [] \<and>
    fst (get T (unmarshal_RespNovels dn) (RespNovels.api vn) (length (heap sn))
          (RespNovels.NextURL vn) None
          (sn\<lparr>heap := heap sn @ [\<lparr>Novels = [], NextURL = [], RankingNovels = [],
                                   SearchSpanLimit = 0, api = RespNovels.api vn\<rparr>]\<rparr>))
      = Returned (Some e) \<longrightarrow>
      fst (NextNovels T dn r sn) = Returned (None, Some e)) \<and>
   (deref (heap si) r = Some vi \<and> RespIllusts.NextURL vi \<noteq> [] \<and>
    fst (get T (unmarshal_RespIllusts di) (RespIllusts.api vi) (length (heap si))
          (RespIllusts.NextURL vi) None
          (si\<lparr>heap := heap si @ [\<lparr>Illusts = [], NextURL = [], RankingIllusts = [],
                                   SearchSpanLimit = 0, api = RespIllusts.api vi\<rparr>]\<rparr>))
      = Returned (Some e) \<longrightarrow>
      fst (NextIllusts T di r si) = Returned (None, Some e)) \<and>
   (deref (heap su) r = Some vu \<and> RespUserPreviews.NextURL vu \<noteq> [] \<and>
    fst (get T (unmarshal_RespUserPreviews du) (RespUserPreviews.api vu) (length (heap su))
          (RespUserPreviews.NextURL vu) None
          (su\<lparr>heap := heap su @ [\<lparr>UserPreviews = [], NextURL = [],
                                   api = RespUserPreviews.api vu\<rparr>]\<rparr>))
      = Returned (Some e) \<longrightarrow>
      fst (NextFollowing T du r su) = Returned (None, Some e)) \<and>
   (\<forall>p. fst (NextComments T dc r sc) = Returned (p, Some e) \<longrightarrow> p = None) \<and>
   (\<forall>p. fst (NextNovels T dn r sn) = Returned (p, Some e) \<longrightarrow> p = None) \<and>
   (\<forall>p. fst (NextIllusts T di r si) = Returned (p, Some e) \<longrightarrow> p = None) \<and>
   (\<forall>p. fst (NextFollowing T du r su) = Returned (p, Some e) \<longrightarrow> p = None)"
  unfolding advance_eqs
  by (intro conjI impI allI; (elim conjE)?)
     (erule (2) advance_get_error_fst | erule advance_error_nil_page)+

theorem fetch_error_propagates_witness:
  "fst (NextComments (serve []) raw_slice 0 (one_page (comments_page ''u'' (Some 5))))
     = Returned (None, Some (TransportError ''not found'')) \<and>
   fst (NextNovels (serve []) raw_slice 0 (one_page (novels_page ''u'' (Some 5))))
     = Returned (None, Some (TransportError ''not found'')) \<and>
   fst (NextIllusts (serve []) raw_slice 0 (one_page (illusts_page ''u'' (Some 5))))
     = Returned (None, Some (TransportError ''not found'')) \<and>
   fst (NextFollowing (serve []) raw_slice 0 (one_page (previews_page ''u'' (Some 5))))
     = Returned (None, Some (TransportError ''not found''))"
  using fetch_error_propagates
    [where r = 0 and T = "serve []" and e = "TransportError ''not found''"
       and sc = "one_page (comments_page ''u'' (Some 5))" and vc = "comments_page ''u'' (Some 5)"
       and sn = "one_page (novels_page ''u'' (Some 5))" and vn = "novels_page ''u'' (Some 5)"
       and si = "one_page (illusts_page ''u'' (Some 5))" and vi = "illusts_page ''u'' (Some 5)"
       and su = "one_page (previews_page ''u'' (Some 5))" and vu = "previews_page ''u'' (Some 5)"
       and dc = raw_slice and dn = raw_slice and di = raw_slice and du = raw_slice]
  by (simp add: example_defs get_def serve_def)

text \<open>
  Claim C6. A method leaves the struct it is called on as it was: after the call,
  on every path, the receiver's address holds the same record (items, ranking items,
  \<^verbatim>\<open>NextURL\<close>, \<^verbatim>\<open>SearchSpanLimit\<close> and \<^verbatim>\<open>api\<close>), and so does every address that was allocated
  before the call. A page that a method returns is a new object: its address is not the
  receiver's and held no object before the call.
\<close>

theorem advance_leaves_original:
  "(deref (heap sc) r = Some vc \<longrightarrow>
      deref (heap (snd (NextComments T dc r sc))) r = Some vc \<and>
      take (length (heap sc)) (heap (snd (NextComments T dc r sc))) = heap sc \<and>
      (\<forall>p e. fst (NextComments T dc r sc) = Returned (Some p, e) \<longrightarrow>
         p \<noteq> r \<and> deref (heap sc) p = None)) \<and>
   (deref (heap sn) r = Some vn \<longrightarrow>
      deref (heap (snd (NextNovels T dn r sn))) r = Some vn \<and>
      take (length (heap sn)) (heap (snd (NextNovels T dn r sn))) = heap sn \<and>
      (\<forall>p e. fst (NextNovels T dn r sn) = Returned (Some p, e) \<longrightarrow>
         p \<noteq> r \<and> deref (heap sn) p = None)) \<and>
   (deref (heap si) r = Some vi \<longrightarrow>
      deref (heap (snd (NextIllusts T di r si))) r = Some vi \<and>
      take (length (heap si)) (heap (snd (NextIllusts T di r si))) = heap si \<and>
      (\<forall>p e. fst (NextIllusts T di r si) = Returned (Some p, e) \<longrightarrow>
         p \<noteq> r \<and> deref (heap si) p = None)) \<and>
   (deref (heap su) r = Some vu \<longrightarrow>
      deref (heap (snd (NextFollowing T du r su))) r = Some vu \<and>
      take (length (heap su)) (heap (snd (NextFollowing T du r su))) = heap su \<and>
      (\<forall>p e. fst (NextFollowing T du r su) = Returned (Some p, e) \<longrightarrow>
         p \<noteq> r \<and> deref (heap su) p = None))"
  unfolding advance_eqs
  by (intro conjI impI allI)
     (erule advance_original | erule advance_frame | erule (1) advance_fresh [THEN conjunct1]
      | erule (1) advance_fresh [THEN conjunct2])+

theorem advance_leaves_original_witness:
  "deref (heap (snd (NextComments (serve two_pages) raw_slice 0
      (one_page (comments_page ''u'' (Some 5)))))) 0 = Some (comments_page ''u'' (Some 5)) \<and>
   deref (heap (snd (NextNovels (serve two_pages) raw_slice 0
      (one_page (novels_page ''u'' (Some 5)))))) 0 = Some (novels_page ''u'' (Some 5)) \<and>
   deref (heap (snd (NextIllusts (serve two_pages) raw_slice 0
      (one_page (illusts_page ''u'' (Some 5)))))) 0 = Some (illusts_page ''u'' (Some 5)) \<and>
   deref (heap (snd (NextFollowing (serve two_pages) raw_slice 0
      (one_page (previews_page ''u'' (Some 5)))))) 0 = Some (previews_page ''u'' (Some 5))"
  using advance_leaves_original
    [where r = 0 and T = "serve two_pages"
       and sc = "one_page (comments_page ''u'' (Some 5))" and vc = "comments_page ''u'' (Some 5)"
       and sn = "one_page (novels_page ''u'' (Some 5))" and vn = "novels_page ''u'' (Some 5)"
       and si = "one_page (illusts_page ''u'' (Some 5))" and vi = "illusts_page ''u'' (Some 5)"
       and su = "one_page (previews_page ''u'' (Some 5))" and vu = "previews_page ''u'' (Some 5)"
       and dc = raw_slice and dn = raw_slice and di = raw_slice and du = raw_slice]
  by (simp add: example_defs)

text \<open>
  Claim C7. Along every traversal, the page reached after any number of successful calls
  has the \<^verbatim>\<open>api\<close> pointer of the page the traversal started from. One call is the
  traversal of length one.
\<close>

theorem fetcher_binding_persists:
  "(fst (traverse (NextComments T dc) k r sc) = Returned (Some rk, e) \<and>
    deref (heap sc) r = Some vc \<longrightarrow>
      (\<exists>vk. deref (heap (snd (traverse (NextComments T dc) k r sc))) rk = Some vk \<and>
            RespComments.api vk = RespComments.api vc)) \<and>
   (fst (traverse (NextNovels T dn) k r sn) = Returned (Some rk, e) \<and>
    deref (heap sn) r = Some vn \<longrightarrow>
      (\<exists>vk. deref (heap (snd (traverse (NextNovels T dn) k r sn))) rk = Some vk \<and>
            RespNovels.api vk = RespNovels.api vn)) \<and>
   (fst (traverse (NextIllusts T di) k r si) = Returned (Some rk, e) \<and>
    deref (heap si) r = Some vi \<longrightarrow>
      (\<exists>vk. deref (heap (snd (traverse (NextIllusts T di) k r si))) rk = Some vk \<and>
            RespIllusts.api vk = RespIllusts.api vi)) \<and>
   (fst (traverse (NextFollowing T du) k r su) = Returned (Some rk, e) \<and>
    deref (heap su) r = Some vu \<longrightarrow>
      (\<exists>vk. deref (heap (snd (traverse (NextFollowing T du) k r su))) rk = Some vk \<and>
            RespUserPreviews.api vk = RespUserPreviews.api vu)) \<and>
   traverse (NextComments T dc) (Suc 0) r sc = NextComments T dc r sc \<and>
   traverse (NextNovels T dn) (Suc 0) r sn = NextNovels T dn r sn \<and>
   traverse (NextIllusts T di) (Suc 0) r si = NextIllusts T di r si \<and>
   traverse (NextFollowing T du) (Suc 0) r su = NextFollowing T du r su"
proof -
  have "\<exists>vk. deref (heap (snd (traverse (NextComments T dc) k r sc))) rk = Some vk \<and>
            RespComments.api vk = RespComments.api vc"
    if "fst (traverse (NextComments T dc) k r sc) = Returned (Some rk, e)"
      and "deref (heap sc) r = Some vc"
    using that unfolding NextComments_advance
    by (rule traverse_api_fst [rotated 2]) (simp_all add: unmarshal_RespComments_api)
  moreover have "\<exists>vk. deref (heap (snd (traverse (NextNovels T dn) k r sn))) rk = Some vk \<and>
            RespNovels.api vk = RespNovels.api vn"
    if "fst (traverse (NextNovels T dn) k r sn) = Returned (Some rk, e)"
      and "deref (heap sn) r = Some vn"
    using that unfolding NextNovels_advance
    by (rule traverse_api_fst [rotated 2]) (simp_all add: unmarshal_RespNovels_api)
  moreover have "\<exists>vk. deref (heap (snd (traverse (NextIllusts T di) k r si))) rk = Some vk \<and>
            RespIllusts.api vk = RespIllusts.api vi"
    if "fst (traverse (NextIllusts T di) k r si) = Returned (Some rk, e)"
      and "deref (heap si) r = Some vi"
    using that unfolding NextIllusts_advance
    by (rule traverse_api_fst [rotated 2]) (simp_all add: unmarshal_RespIllusts_api)
  moreover have "\<exists>vk. deref (heap (snd (traverse (NextFollowing T du) k r su))) rk = Some vk \<and>
            RespUserPreviews.api vk = RespUserPreviews.api vu"
    if "fst (traverse (NextFollowing T du) k r su) = Returned (Some rk, e)"
      and "deref (heap su) r = Some vu"
    using that unfolding NextFollowing_advance
    by (rule traverse_api_fst [rotated 2]) (simp_all add: unmarshal_RespUserPreviews_api)
  ultimately show ?thesis by (simp only: traverse_one) blast
qed

theorem fetcher_binding_persists_witness:
  "(\<exists>vk. deref (heap (snd (traverse (NextComments (serve two_pages) raw_slice) 2 0
             (one_page (comments_page ''u'' (Some 5)))))) 2 = Some vk \<and>
         RespComments.api vk = Some 5) \<and>
   (\<exists>vk. deref (heap (snd (traverse (NextNovels (serve two_pages) raw_slice) 2 0
             (one_page (novels_page ''u'' (Some 5)))))) 2 = Some vk \<and>
         RespNovels.api vk = Some 5) \<and>
   (\<exists>vk. deref (heap (snd (traverse (NextIllusts (serve two_pages) raw_slice) 2 0
             (one_page (illusts_page ''u'' (Some 5)))))) 2 = Some vk \<and>
         RespIllusts.api vk = Some 5) \<and>
   (\<exists>vk. deref (heap (snd (traverse (NextFollowing (serve two_pages) raw_slice) 2 0
             (one_page (previews_page ''u'' (Some 5)))))) 2 = Some vk \<and>
         RespUserPreviews.api vk = Some 5)"
proof -
  have "fst (traverse (NextComments (serve two_pages) raw_slice) 2 0
               (one_page (comments_page ''u'' (Some 5)))) = Returned (Some 2, None)"
       "fst (traverse (NextNovels (serve two_pages) raw_slice) 2 0
               (one_page (novels_page ''u'' (Some 5)))) = Returned (Some 2, None)"
       "fst (traverse (NextIllusts (serve two_pages) raw_slice) 2 0
               (one_page (illusts_page ''u'' (Some 5)))) = Returned (Some 2, None)"
       "fst (traverse (NextFollowing (serve two_pages) raw_slice) 2 0
               (one_page (previews_page ''u'' (Some 5)))) = Returned (Some 2, None)"
    by (simp_all add: numeral_2_eq_2 example_defs run_defs)
  then show ?thesis
    using fetcher_binding_persists
      [where r = 0 and T = "serve two_pages" and k = 2 and rk = 2 and e = None
         and sc = "one_page (comments_page ''u'' (Some 5))" and vc = "comments_page ''u'' (Some 5)"
         and sn = "one_page (novels_page ''u'' (Some 5))" and vn = "novels_page ''u'' (Some 5)"
         and si = "one_page (illusts_page ''u'' (Some 5))" and vi = "illusts_page ''u'' (Some 5)"
         and su = "one_page (previews_page ''u'' (Some 5))" and vu = "previews_page ''u'' (Some 5)"
         and dc = raw_slice and dn = raw_slice and di = raw_slice and du = raw_slice]
    by (simp add: example_defs)
qed

text \<open>
  Claim C8. A method that fetches calls \<open>get\<close> once, with the receiver's \<^verbatim>\<open>api\<close> pointer,
  the new struct as target, the stored \<^verbatim>\<open>NextURL\<close> string itself as the URL, and nil as the
  query argument; the transport is asked for exactly that URL with no query. On an empty
  cursor nothing is added to the log of calls.
\<close>

theorem cursor_is_the_whole_request:
  "(deref (heap sc) r = Some vc \<longrightarrow>
      calls (snd (NextComments T dc r sc)) =
        (if RespComments.NextURL vc = [] then calls sc
         else calls sc @
           [\<lparr>call_api = RespComments.api vc, call_target = length (heap sc),
             call_url = RespComments.NextURL vc, call_query = None,
             call_reply = fst (T (world sc) (RespComments.api vc) (RespComments.NextURL vc) None)\<rparr>])) \<and>
   (deref (heap sn) r = Some vn \<longrightarrow>
      calls (snd (NextNovels T dn r sn)) =
        (if RespNovels.NextURL vn = [] then calls sn
         else calls sn @
           [\<lparr>call_api = RespNovels.api vn, call_target = length (heap sn),
             call_url = RespNovels.NextURL vn, call_query = None,
             call_reply = fst (T (world sn) (RespNovels.api vn) (RespNovels.NextURL vn) None)\<rparr>])) \<and>
   (deref (heap si) r = Some vi \<longrightarrow>
      calls (snd (NextIllusts T di r si)) =
        (if RespIllusts.NextURL vi = [] then calls si
         else calls si @
           [\<lparr>call_api = RespIllusts.api vi, call_target = length (heap si),
             call_url = RespIllusts.NextURL vi, call_query = None,
             call_reply = fst (T (world si) (RespIllusts.api vi) (RespIllusts.NextURL vi) None)\<rparr>])) \<and>
   (deref (heap su) r = Some vu \<longrightarrow>
      calls (snd (NextFollowing T du r su)) =
        (if RespUserPreviews.NextURL vu = [] then calls su
         else calls su @
           [\<lparr>call_api = RespUserPreviews.api vu, call_target = length (heap su),
             call_url = RespUserPreviews.NextURL vu, call_query = None,
             call_reply =
               fst (T (world su) (RespUserPreviews.api vu) (RespUserPreviews.NextURL vu) None)\<rparr>]))"
  unfolding advance_eqs
  by (intro conjI impI) (erule advance_calls)+

theorem cursor_is_the_whole_request_witness:
  "calls (snd (NextComments (serve two_pages) raw_slice 0
      (one_page (comments_page ''u'' (Some 5))))) =
     [\<lparr>call_api = Some 5, call_target = 1, call_url = ''u'', call_query = None,
       call_reply = Body (JObj [(''next_url'', JStr ''v'')])\<rparr>] \<and>
   calls (snd (NextNovels (serve two_pages) raw_slice 0
      (one_page (novels_page ''u'' (Some 5))))) =
     [\<lparr>call_api = Some 5, call_target = 1, call_url = ''u'', call_query = None,
       call_reply = Body (JObj [(''next_url'', JStr ''v'')])\<rparr>] \<and>
   calls (snd (NextIllusts (serve two_pages) raw_slice 0
      (one_page (illusts_page ''u'' (Some 5))))) =
     [\<lparr>call_api = Some 5, call_target = 1, call_url = ''u'', call_query = None,
       call_reply = Body (JObj [(''next_url'', JStr ''v'')])\<rparr>] \<and>
   calls (snd (NextFollowing (serve two_pages) raw_slice 0
      (one_page (previews_page ''u'' (Some 5))))) =
     [\<lparr>call_api = Some 5, call_target = 1, call_url = ''u'', call_query = None,
       call_reply = Body (JObj [(''next_url'', JStr ''v'')])\<rparr>]"
  using cursor_is_the_whole_request
    [where r = 0 and T = "serve two_pages"
       and sc = "one_page (comments_page ''u'' (Some 5))" and vc = "comments_page ''u'' (Some 5)"
       and sn = "one_page (novels_page ''u'' (Some 5))" and vn = "novels_page ''u'' (Some 5)"
       and si = "one_page (illusts_page ''u'' (Some 5))" and vi = "illusts_page ''u'' (Some 5)"
       and su = "one_page (previews_page ''u'' (Some 5))" and vu = "previews_page ''u'' (Some 5)"
       and dc = raw_slice and dn = raw_slice and di = raw_slice and du = raw_slice]
  by (simp add: example_defs serve_def two_pages_def)

text \<open>
  Claim C10. Whatever the store, the receiver and the transport, a method that returns
  gives exactly one of a page and an error: never both, never neither. The only calls that
  do not return are those on a receiver that is no object and those in which the
  transport crashes.
\<close>

theorem page_xor_error:
  "(case fst (NextComments T dc r sc) of
      Returned (p, e) \<Rightarrow> (p = None) \<noteq> (e = None)
    | Panicked \<Rightarrow>
        deref (heap sc) r = None \<or>
        (\<exists>v. deref (heap sc) r = Some v \<and> RespComments.NextURL v \<noteq> [] \<and>
             fst (T (world sc) (RespComments.api v) (RespComments.NextURL v) None) = Crash)) \<and>
   (case fst (NextNovels T dn r sn) of
      Returned (p, e) \<Rightarrow> (p = None) \<noteq> (e = None)
    | Panicked \<Rightarrow>
        deref (heap sn) r = None \<or>
        (\<exists>v. deref (heap sn) r = Some v \<and> RespNovels.NextURL v \<noteq> [] \<and>
             fst (T (world sn) (RespNovels.api v) (RespNovels.NextURL v) None) = Crash)) \<and>
   (case fst (NextIllusts T di r si) of
      Returned (p, e) \<Rightarrow> (p = None) \<noteq> (e = None)
    | Panicked \<Rightarrow>
        deref (heap si) r = None \<or>
        (\<exists>v. deref (heap si) r = Some v \<and> RespIllusts.NextURL v \<noteq> [] \<and>
             fst (T (world si) (RespIllusts.api v) (RespIllusts.NextURL v) None) = Crash)) \<and>
   (case fst (NextFollowing T du r su) of
      Returned (p, e) \<Rightarrow> (p = None) \<noteq> (e = None)
    | Panicked \<Rightarrow>
        deref (heap su) r = None \<or>
        (\<exists>v. deref (heap su) r = Some v \<and> RespUserPreviews.NextURL v \<noteq> [] \<and>
             fst (T (world su) (RespUserPreviews.api v) (RespUserPreviews.NextURL v) None)
               = Crash))"
  unfolding advance_eqs
  by (intro conjI) (rule advance_outcome)+

theorem page_xor_error_witness:
  "(case fst (NextComments (serve two_pages) raw_slice 0
             (one_page (comments_page ''u'' (Some 5)))) of
      Returned (p, e) \<Rightarrow> (p = None) \<noteq> (e = None) | Panicked \<Rightarrow> False) \<and>
   (case fst (NextNovels (serve two_pages) raw_slice 0
             (one_page (novels_page ''w'' (Some 5)))) of
      Returned (p, e) \<Rightarrow> (p = None) \<noteq> (e = None) | Panicked \<Rightarrow> False) \<and>
   (case fst (NextIllusts (serve two_pages) raw_slice 0
             (one_page (illusts_page [] (Some 5)))) of
      Returned (p, e) \<Rightarrow> (p = None) \<noteq> (e = None) | Panicked \<Rightarrow> False) \<and>
   (case fst (NextFollowing (serve two_pages) raw_slice 0
             (one_page (previews_page ''v'' None))) of
      Returned (p, e) \<Rightarrow> (p = None) \<noteq> (e = None) | Panicked \<Rightarrow> False)"
  using page_xor_error
    [where r = 0 and T = "serve two_pages"
       and sc = "one_page (comments_page ''u'' (Some 5))"
       and sn = "one_page (novels_page ''w'' (Some 5))"
       and si = "one_page (illusts_page [] (Some 5))"
       and su = "one_page (previews_page ''v'' None)"
       and dc = raw_slice and dn = raw_slice and di = raw_slice and du = raw_slice]
  by (simp add: example_defs serve_def two_pages_def cong: outcome.case_cong)

text \<open>
  Claim C5. Take a traversal of \<open>k > 0\<close> successful calls, and let the body that the
  last of them fetched carry no cursor. Then the next call, on the page just reached,
  returns \<^verbatim>\<open>ErrEmptyNextURL\<close> and changes nothing, and so every traversal of more than
  \<open>k\<close> calls stops there with that error: call \<open>k + 1\<close> is the first to fail, and it
  fails with the empty-cursor error, not with a page.
\<close>

theorem chain_stops_after_last_page:
  "(0 < k \<and> traverse (NextComments T dc) k r sc = (Returned (Some rk, None), skc) \<and>
    call_reply (last (calls skc)) = Body j \<and> empty_next_url j \<longrightarrow>
      NextComments T dc rk skc = (Returned (None, Some ErrEmptyNextURL), skc) \<and>
      (\<forall>m>k. traverse (NextComments T dc) m r sc
                = (Returned (None, Some ErrEmptyNextURL), skc))) \<and>
   (0 < k \<and> traverse (NextNovels T dn) k r sn = (Returned (Some rk, None), skn) \<and>
    call_reply (last (calls skn)) = Body j \<and> empty_next_url j \<longrightarrow>
      NextNovels T dn rk skn = (Returned (None, Some ErrEmptyNextURL), skn) \<and>
      (\<forall>m>k. traverse (NextNovels T dn) m r sn
                = (Returned (None, Some ErrEmptyNextURL), skn))) \<and>
   (0 < k \<and> traverse (NextIllusts T di) k r si = (Returned (Some rk, None), ski) \<and>
    call_reply (last (calls ski)) = Body j \<and> empty_next_url j \<longrightarrow>
      NextIllusts T di rk ski = (Returned (None, Some ErrEmptyNextURL), ski) \<and>
      (\<forall>m>k. traverse (NextIllusts T di) m r si
                = (Returned (None, Some ErrEmptyNextURL), ski))) \<and>
   (0 < k \<and> traverse (NextFollowing T du) k r su = (Returned (Some rk, None), sku) \<and>
    call_reply (last (calls sku)) = Body j \<and> empty_next_url j \<longrightarrow>
      NextFollowing T du rk sku = (Returned (None, Some ErrEmptyNextURL), sku) \<and>
      (\<forall>m>k. traverse (NextFollowing T du) m r su
                = (Returned (None, Some ErrEmptyNextURL), sku)))"
proof -
  have "NextComments T dc rk skc = (Returned (None, Some ErrEmptyNextURL), skc) \<and>
      (\<forall>m>k. traverse (NextComments T dc) m r sc
                = (Returned (None, Some ErrEmptyNextURL), skc))"
    if "0 < k" "traverse (NextComments T dc) k r sc = (Returned (Some rk, None), skc)"
      "call_reply (last (calls skc)) = Body j" "empty_next_url j"
    using that unfolding NextComments_advance
    by (intro conjI traverse_terminal [where j = j and k = k])
       (simp_all add: unmarshal_RespComments_empty)
  moreover have "NextNovels T dn rk skn = (Returned (None, Some ErrEmptyNextURL), skn) \<and>
      (\<forall>m>k. traverse (NextNovels T dn) m r sn
                = (Returned (None, Some ErrEmptyNextURL), skn))"
    if "0 < k" "traverse (NextNovels T dn) k r sn = (Returned (Some rk, None), skn)"
      "call_reply (last (calls skn)) = Body j" "empty_next_url j"
    using that unfolding NextNovels_advance
    by (intro conjI traverse_terminal [where j = j and k = k])
       (simp_all add: unmarshal_RespNovels_empty)
  moreover have "NextIllusts T di rk ski = (Returned (None, Some ErrEmptyNextURL), ski) \<and>
      (\<forall>m>k. traverse (NextIllusts T di) m r si
                = (Returned (None, Some ErrEmptyNextURL), ski))"
    if "0 < k" "traverse (NextIllusts T di) k r si = (Returned (Some rk, None), ski)"
      "call_reply (last (calls ski)) = Body j" "empty_next_url j"
    using that unfolding NextIllusts_advance
    by (intro conjI traverse_terminal [where j = j and k = k])
       (simp_all add: unmarshal_RespIllusts_empty)
  moreover have "NextFollowing T du rk sku = (Returned (None, Some ErrEmptyNextURL), sku) \<and>
      (\<forall>m>k. traverse (NextFollowing T du) m r su
                = (Returned (None, Some ErrEmptyNextURL), sku))"
    if "0 < k" "traverse (NextFollowing T du) k r su = (Returned (Some rk, None), sku)"
      "call_reply (last (calls sku)) = Body j" "empty_next_url j"
    using that unfolding NextFollowing_advance
    by (intro conjI traverse_terminal [where j = j and k = k])
       (simp_all add: unmarshal_RespUserPreviews_empty)
  ultimately show ?thesis by blast
qed

theorem chain_stops_after_last_page_witness:
  "fst (walk_comments 2) = Returned (Some 2, None) \<and>
   NextComments (serve two_pages) raw_slice 2 (snd (walk_comments 2))
     = (Returned (None, Some ErrEmptyNextURL), snd (walk_comments 2)) \<and>
   walk_comments 3 = (Returned (None, Some ErrEmptyNextURL), snd (walk_comments 2)) \<and>
   fst (walk_novels 2) = Returned (Some 2, None) \<and>
   NextNovels (serve two_pages) raw_slice 2 (snd (walk_novels 2))
     = (Returned (None, Some ErrEmptyNextURL), snd (walk_novels 2)) \<and>
   walk_novels 3 = (Returned (None, Some ErrEmptyNextURL), snd (walk_novels 2)) \<and>
   fst (walk_illusts 2) = Returned (Some 2, None) \<and>
   NextIllusts (serve two_pages) raw_slice 2 (snd (walk_illusts 2))
     = (Returned (None, Some ErrEmptyNextURL), snd (walk_illusts 2)) \<and>
   walk_illusts 3 = (Returned (None, Some ErrEmptyNextURL), snd (walk_illusts 2)) \<and>
   fst (walk_previews 2) = Returned (Some 2, None) \<and>
   NextFollowing (serve two_pages) raw_slice 2 (snd (walk_previews 2))
     = (Returned (None, Some ErrEmptyNextURL), snd (walk_previews 2)) \<and>
   walk_previews 3 = (Returned (None, Some ErrEmptyNextURL), snd (walk_previews 2))"
proof -
  let ?j = "JObj [(''next_url'', JStr [])]"
  have reached:
    "fst (walk_comments 2) = Returned (Some 2, None)"
    "fst (walk_novels 2) = Returned (Some 2, None)"
    "fst (walk_illusts 2) = Returned (Some 2, None)"
    "fst (walk_previews 2) = Returned (Some 2, None)"
    by (simp_all add: walk_comments_def walk_novels_def walk_illusts_def walk_previews_def
          numeral_2_eq_2 example_defs run_defs)
  have fetched:
    "call_reply (last (calls (snd (walk_comments 2)))) = Body ?j"
    "call_reply (last (calls (snd (walk_novels 2)))) = Body ?j"
    "call_reply (last (calls (snd (walk_illusts 2)))) = Body ?j"
    "call_reply (last (calls (snd (walk_previews 2)))) = Body ?j"
    by (simp_all add: walk_comments_def walk_novels_def walk_illusts_def walk_previews_def
          numeral_2_eq_2 example_defs run_defs)
  have no_cursor: "empty_next_url ?j"
    by (simp add: empty_next_url_def)
  have chains:
    "traverse (NextComments (serve two_pages) raw_slice) 2 0
       (one_page (comments_page ''u'' (Some 5))) = (Returned (Some 2, None), snd (walk_comments 2))"
    "traverse (NextNovels (serve two_pages) raw_slice) 2 0
       (one_page (novels_page ''u'' (Some 5))) = (Returned (Some 2, None), snd (walk_novels 2))"
    "traverse (NextIllusts (serve two_pages) raw_slice) 2 0
       (one_page (illusts_page ''u'' (Some 5))) = (Returned (Some 2, None), snd (walk_illusts 2))"
    "traverse (NextFollowing (serve two_pages) raw_slice) 2 0
       (one_page (previews_page ''u'' (Some 5))) = (Returned (Some 2, None), snd (walk_previews 2))"
    using reached
    by (simp_all add: prod_eq_iff walk_comments_def walk_novels_def walk_illusts_def
          walk_previews_def)
  from chain_stops_after_last_page
    [where k = 2 and r = 0 and rk = 2 and j = ?j and T = "serve two_pages"
       and sc = "one_page (comments_page ''u'' (Some 5))" and skc = "snd (walk_comments 2)"
       and sn = "one_page (novels_page ''u'' (Some 5))" and skn = "snd (walk_novels 2)"
       and si = "one_page (illusts_page ''u'' (Some 5))" and ski = "snd (walk_illusts 2)"
       and su = "one_page (previews_page ''u'' (Some 5))" and sku = "snd (walk_previews 2)"
       and dc = raw_slice and dn = raw_slice and di = raw_slice and du = raw_slice]
  have stop:
    "NextComments (serve two_pages) raw_slice 2 (snd (walk_comments 2))
       = (Returned (None, Some ErrEmptyNextURL), snd (walk_comments 2))"
    "\<forall>m>2. walk_comments m = (Returned (None, Some ErrEmptyNextURL), snd (walk_comments 2))"
    "NextNovels (serve two_pages) raw_slice 2 (snd (walk_novels 2))
       = (Returned (None, Some ErrEmptyNextURL), snd (walk_novels 2))"
    "\<forall>m>2. walk_novels m = (Returned (None, Some ErrEmptyNextURL), snd (walk_novels 2))"
    "NextIllusts (serve two_pages) raw_slice 2 (snd (walk_illusts 2))
       = (Returned (None, Some ErrEmptyNextURL), snd (walk_illusts 2))"
    "\<forall>m>2. walk_illusts m = (Returned (None, Some ErrEmptyNextURL), snd (walk_illusts 2))"
    "NextFollowing (serve two_pages) raw_slice 2 (snd (walk_previews 2))
       = (Returned (None, Some ErrEmptyNextURL), snd (walk_previews 2))"
    "\<forall>m>2. walk_previews m = (Returned (None, Some ErrEmptyNextURL), snd (walk_previews 2))"
    unfolding walk_comments_def [abs_def] walk_novels_def [abs_def] walk_illusts_def [abs_def]
      walk_previews_def [abs_def]
    using chains fetched no_cursor
    unfolding walk_comments_def [abs_def] walk_novels_def [abs_def] walk_illusts_def [abs_def]
      walk_previews_def [abs_def]
    by simp_all
  from stop(2,4,6,8) have
    "walk_comments 3 = (Returned (None, Some ErrEmptyNextURL), snd (walk_comments 2))"
    "walk_novels 3 = (Returned (None, Some ErrEmptyNextURL), snd (walk_novels 2))"
    "walk_illusts 3 = (Returned (None, Some ErrEmptyNextURL), snd (walk_illusts 2))"
    "walk_previews 3 = (Returned (None, Some ErrEmptyNextURL), snd (walk_previews 2))"
    by simp_all
  with reached stop(1,3,5,7) show ?thesis by simp
qed

text \<open>
  Claim C3 says that every paginated struct, \<^verbatim>\<open>RespBookmarkTags\<close> included, takes its
  cursor from the JSON member \<^verbatim>\<open>next_url\<close>. The field \<^verbatim>\<open>NextURL\<close> of \<^verbatim>\<open>RespBookmarkTags\<close>
  has no \<^verbatim>\<open>json:"next_url"\<close> tag: decoding a body whose \<^verbatim>\<open>next_url\<close> is a URL leaves
  its \<^verbatim>\<open>NextURL\<close> empty, where the same member fills the \<^verbatim>\<open>NextURL\<close> of \<^verbatim>\<open>RespComments\<close>.
\<close>

theorem bookmark_tags_cursor_not_decoded:
  "unmarshal_RespBookmarkTags
     (JObj [(''bookmark_tags'', JArr [JObj [(''count'', JNum 3), (''name'', JStr ''cat'')]]),
            (''next_url'', JStr ''https://app-api.pixiv.net/v1/user/bookmark-tags/illust?offset=30'')])
     \<lparr>BookmarkTags = [], NextURL = [], api = Some 5\<rparr>
     = (\<lparr>BookmarkTags = [\<lparr>Count = 3, Name = ''cat''\<rparr>], NextURL = [], api = Some 5\<rparr>, None) \<and>
   unmarshal_RespComments raw_slice
     (JObj [(''comments'', JArr []),
            (''next_url'', JStr ''https://app-api.pixiv.net/v2/illust/comments?offset=30'')])
     \<lparr>Comments = [], NextURL = [], api = Some 5\<rparr>
     = (\<lparr>Comments = [], NextURL = ''https://app-api.pixiv.net/v2/illust/comments?offset=30'',
         api = Some 5\<rparr>, None)"
  by (simp add: unmarshal_RespBookmarkTags_def unmarshal_RespComments_def unmarshal_struct_def
        RespBookmarkTags_fields_def RespComments_fields_def BookmarkTag_fields_def
        decode_BookmarkTags_def raw_slice_def find_field_def foldName_def foldChar_def
        string_field_def int_field_def slice_field_def first_error_def)

end
